theory Spec2Isabelle
  imports
    Complex_Main
    "HOL-Library.Multiset"
    "HOL-Library.Sublist"
    "HOL-Library.Option_ord"
    "HOL-Library.Char_ord"
    "HOL-Library.List_Lexorder"
begin

section \<open>Padel racket explorer: the filter, sort and summary engine\<close>

text \<open>
  A shallow embedding of \<^verbatim>\<open>filter_and_sort_data\<close> and of the average-price block of
  \<^verbatim>\<open>main\<close> in \<^verbatim>\<open>padel_app.py\<close>. The pandas operations the source calls are
  written out as list functions; what pandas and numpy leave open (the order of ties under
  the default sorting algorithm) is a parameter of the model.
\<close>

subsection \<open>Data model\<close>

text \<open>
  One row of \<^verbatim>\<open>padel_data.csv\<close>. The ratings are integers and always present; a
  price cell may be empty (NaN in the frame), and so may a name cell. Prices are numbers,
  taken here as exact rationals. Text is a list of characters; letter case is the one of the
  ASCII letters.
\<close>

record racket =
  name :: "string option"
  overall :: int
  power_col :: int
  control :: int
  rebound :: int
  omgang :: int
  sweetspot :: int
  price :: "rat option"

text \<open>
  A DataFrame is an ordered list of rows, each carrying its index label. Boolean indexing
  and sorting keep the label of every row they keep, so the label tells where a row of a
  result stood in the frame that \<^verbatim>\<open>read_csv\<close> built (labels \<open>0, 1, 2, ...\<close>).
\<close>

type_synonym row = "nat \<times> racket"
type_synonym dataframe = "row list"

definition read_frame :: "racket list \<Rightarrow> dataframe" where
  "read_frame rs = zip [0 ..< length rs] rs"

text \<open>The \<^verbatim>\<open>filters\<close> dictionary that \<^verbatim>\<open>main\<close> builds, one field per key.\<close>

record filters =
  name_search :: string
  overall_range :: "int \<times> int"
  price_range :: "(rat \<times> rat) option"
  include_no_price :: bool
  power_range :: "int \<times> int"
  control_range :: "int \<times> int"
  rebound_range :: "int \<times> int"
  omgang_range :: "int \<times> int"
  sweetspot_range :: "int \<times> int"

text \<open>The options of the two sorting widgets.\<close>

datatype column = Overall | Price | Power | Control | Rebound | Omgang | Sweetspot | Name

datatype sort_order = Desc | Asc

text \<open>
  What a call does: it returns a value or raises. A third outcome marks a search pattern
  whose regular-expression syntax lies outside the fragment formalised below; nothing is
  asserted about such a call.
\<close>

datatype py_error = ReError | AttributeError

datatype 'a outcome = Returns 'a | Raises py_error | OutsideFragment

subsection \<open>Numeric range filters\<close>

text \<open>
  \<^verbatim>\<open>if rng[0] != rng[1]: filtered_df = filtered_df[(col >= rng[0]) & (col <= rng[1])]\<close>
\<close>

definition range_filter :: "(racket \<Rightarrow> int) \<Rightarrow> int \<times> int \<Rightarrow> dataframe \<Rightarrow> dataframe" where
  "range_filter col rng df =
     (if fst rng \<noteq> snd rng
      then filter (\<lambda>x. col (snd x) \<ge> fst rng \<and> col (snd x) \<le> snd rng) df
      else df)"

subsection \<open>Price filter\<close>

text \<open>Comparisons with NaN are false; \<^verbatim>\<open>pd.isna\<close> tells a missing cell.\<close>

definition nan_ge :: "rat option \<Rightarrow> rat \<Rightarrow> bool" where
  "nan_ge v b = (case v of None \<Rightarrow> False | Some p \<Rightarrow> p \<ge> b)"

definition nan_le :: "rat option \<Rightarrow> rat \<Rightarrow> bool" where
  "nan_le v b = (case v of None \<Rightarrow> False | Some p \<Rightarrow> p \<le> b)"

definition isna :: "'a option \<Rightarrow> bool" where
  "isna v = (case v of None \<Rightarrow> True | Some _ \<Rightarrow> False)"

definition price_mask :: "filters \<Rightarrow> rat \<times> rat \<Rightarrow> row \<Rightarrow> bool" where
  "price_mask f rng x =
     ((nan_ge (price (snd x)) (fst rng) \<and> nan_le (price (snd x)) (snd rng))
      \<or> (include_no_price f \<and> isna (price (snd x))))"

text \<open>
  A tuple is truthy, \<^verbatim>\<open>None\<close> is not: the first branch needs a supplied range whose
  ends differ; every other case falls to the \<^verbatim>\<open>elif\<close>.
\<close>

definition price_filter :: "filters \<Rightarrow> dataframe \<Rightarrow> dataframe" where
  "price_filter f df =
     (case price_range f of
        Some rng \<Rightarrow>
          if fst rng \<noteq> snd rng then filter (price_mask f rng) df
          else if \<not> include_no_price f then filter (\<lambda>x. \<not> isna (price (snd x))) df
          else df
      | None \<Rightarrow>
          if \<not> include_no_price f then filter (\<lambda>x. \<not> isna (price (snd x))) df
          else df)"

subsection \<open>Attribute filters\<close>

text \<open>The loop over \<^verbatim>\<open>['power', 'control', 'rebound', 'omgang', 'sweetspot']\<close>.\<close>

definition attr_ranges :: "filters \<Rightarrow> ((racket \<Rightarrow> int) \<times> (int \<times> int)) list" where
  "attr_ranges f =
     [(power_col, power_range f), (control, control_range f), (rebound, rebound_range f),
      (omgang, omgang_range f), (sweetspot, sweetspot_range f)]"

definition attr_filters :: "filters \<Rightarrow> dataframe \<Rightarrow> dataframe" where
  "attr_filters f df = fold (\<lambda>(col, rng) d. range_filter col rng d) (attr_ranges f) df"

subsection \<open>Name filter\<close>

text \<open>
  \<^verbatim>\<open>filtered_df['name'].str.contains(pat, case=False, na=False)\<close> leaves
  \<^verbatim>\<open>regex\<close> at its default \<^verbatim>\<open>True\<close>: the search text is compiled as a regular
  expression with \<^verbatim>\<open>re.IGNORECASE\<close> and searched for in each name. The fragment below
  covers the patterns made of ordinary characters, the dot, and the opening parenthesis:
  an ordinary character stands for itself in either case, a dot for any character but a
  newline, and a group that is opened and never closed is rejected by \<^verbatim>\<open>re.compile\<close>
  (error "missing ), unterminated subpattern").
\<close>

definition re_special :: "char list" where
  "re_special =
     [CHR ''.'', CHR ''^'', CHR ''$'', CHR ''*'', CHR ''+'', CHR ''?'', CHR ''{'', CHR ''}'',
      CHR ''['', CHR '']'', CHR 0x5C, CHR ''|'', CHR ''('', CHR '')'']"

datatype re_atom = Lit char | Dot

datatype re_compiled = Pattern "re_atom list" | BadPattern | Unsupported

definition re_compile :: "string \<Rightarrow> re_compiled" where
  "re_compile pat =
     (if list_all (\<lambda>c. c \<notin> set re_special \<or> c = CHR ''.'') pat
      then Pattern (map (\<lambda>c. if c = CHR ''.'' then Dot else Lit c) pat)
      else if list_all (\<lambda>c. c \<notin> set re_special \<or> c = CHR ''.'' \<or> c = CHR ''('') pat
      then BadPattern
      else Unsupported)"

text \<open>Letter case is ignored: an ASCII capital and its small letter count as the same.\<close>

definition lower_char :: "char \<Rightarrow> char" where
  "lower_char c =
     (case map_of (zip ''ABCDEFGHIJKLMNOPQRSTUVWXYZ'' ''abcdefghijklmnopqrstuvwxyz'') c of
        Some l \<Rightarrow> l
      | None \<Rightarrow> c)"

fun atom_matches :: "re_atom \<Rightarrow> char \<Rightarrow> bool" where
  "atom_matches (Lit p) c = (lower_char p = lower_char c)"
| "atom_matches Dot c = (c \<noteq> CHR 0x0A)"

fun match_here :: "re_atom list \<Rightarrow> string \<Rightarrow> bool" where
  "match_here [] s = True"
| "match_here (a # as) [] = False"
| "match_here (a # as) (c # cs) = (atom_matches a c \<and> match_here as cs)"

fun re_search :: "re_atom list \<Rightarrow> string \<Rightarrow> bool" where
  "re_search as [] = match_here as []"
| "re_search as (c # cs) = (match_here as (c # cs) \<or> re_search as cs)"

text \<open>
  The \<^verbatim>\<open>.str\<close> accessor exists on a column of strings only. A name column whose
  cells are all empty is read as a float column of NaN, and \<^verbatim>\<open>.str\<close> on it raises
  \<^verbatim>\<open>AttributeError\<close>; a frame without rows has object columns. Indexing keeps the
  type of a column, so it is the frame as loaded that decides.
\<close>

definition has_str_accessor :: "dataframe \<Rightarrow> bool" where
  "has_str_accessor df = (df = [] \<or> list_ex (\<lambda>x. \<not> isna (name (snd x))) df)"

definition contains_na_false :: "re_atom list \<Rightarrow> row \<Rightarrow> bool" where
  "contains_na_false atoms x = (case name (snd x) of None \<Rightarrow> False | Some s \<Rightarrow> re_search atoms s)"

definition name_filter :: "bool \<Rightarrow> filters \<Rightarrow> dataframe \<Rightarrow> dataframe outcome" where
  "name_filter str_ok f df =
     (if name_search f = [] then Returns df
      else if \<not> str_ok then Raises AttributeError
      else case re_compile (name_search f) of
             Pattern atoms \<Rightarrow> Returns (filter (contains_na_false atoms) df)
           | BadPattern \<Rightarrow> Raises ReError
           | Unsupported \<Rightarrow> OutsideFragment)"

subsection \<open>The filters in the order of the source\<close>

definition apply_filters :: "dataframe \<Rightarrow> filters \<Rightarrow> dataframe outcome" where
  "apply_filters df f =
     name_filter (has_str_accessor df) f
       (attr_filters f (price_filter f (range_filter overall (overall_range f) df)))"

subsection \<open>Sorting\<close>

text \<open>
  \<^verbatim>\<open>DataFrame.sort_values\<close> on one column sets the rows with a missing key aside,
  hands the others to numpy's \<^verbatim>\<open>argsort\<close> of the chosen \<^verbatim>\<open>kind\<close>, and appends the
  rows with a missing key in frame order (\<^verbatim>\<open>na_position='last'\<close>, also the default).
  For a descending sort it reverses the rows before sorting and the result after. The
  source names no \<^verbatim>\<open>kind\<close> and so gets \<^verbatim>\<open>'quicksort'\<close>, whose order of ties
  pandas does not fix: the algorithm is the parameter \<open>kind\<close>, a function that arranges rows
  along a comparison.
\<close>

type_synonym sorter = "(row \<Rightarrow> row \<Rightarrow> bool) \<Rightarrow> row list \<Rightarrow> row list"

definition sort_values :: "sorter \<Rightarrow> (racket \<Rightarrow> 'k::linorder option) \<Rightarrow> bool \<Rightarrow> dataframe \<Rightarrow> dataframe" where
  "sort_values kind key ascending df =
     (let le = (\<lambda>x y. key (snd x) \<le> key (snd y));
          non_nans = filter (\<lambda>x. \<not> isna (key (snd x))) df;
          nans = filter (\<lambda>x. isna (key (snd x))) df
      in (if ascending then kind le non_nans else rev (kind le (rev non_nans))) @ nans)"

text \<open>The column named by \<^verbatim>\<open>sort_by\<close>; names compare as Python strings do, by code point.\<close>

definition sort_by_column :: "sorter \<Rightarrow> column \<Rightarrow> bool \<Rightarrow> dataframe \<Rightarrow> dataframe" where
  "sort_by_column kind col ascending df =
     (case col of
        Overall \<Rightarrow> sort_values kind (\<lambda>r. Some (overall r)) ascending df
      | Price \<Rightarrow> sort_values kind price ascending df
      | Power \<Rightarrow> sort_values kind (\<lambda>r. Some (power_col r)) ascending df
      | Control \<Rightarrow> sort_values kind (\<lambda>r. Some (control r)) ascending df
      | Rebound \<Rightarrow> sort_values kind (\<lambda>r. Some (rebound r)) ascending df
      | Omgang \<Rightarrow> sort_values kind (\<lambda>r. Some (omgang r)) ascending df
      | Sweetspot \<Rightarrow> sort_values kind (\<lambda>r. Some (sweetspot r)) ascending df
      | Name \<Rightarrow> sort_values kind name ascending df)"

definition apply_sorting :: "sorter \<Rightarrow> column \<Rightarrow> sort_order \<Rightarrow> dataframe \<Rightarrow> dataframe" where
  "apply_sorting kind sort_by order df =
     (if sort_by = Price then
        (if order = Asc then sort_values kind price True df
         else sort_values kind price False df)
      else
        (let ascending = (order = Asc) in sort_by_column kind sort_by ascending df))"

text \<open>Whether the sort key of a row is missing.\<close>

definition key_missing :: "column \<Rightarrow> row \<Rightarrow> bool" where
  "key_missing col x =
     (case col of Price \<Rightarrow> isna (price (snd x)) | Name \<Rightarrow> isna (name (snd x)) | _ \<Rightarrow> False)"

text \<open>Whether two rows have the same present sort key.\<close>

definition same_key :: "column \<Rightarrow> row \<Rightarrow> row \<Rightarrow> bool" where
  "same_key col x y =
     (case col of
        Overall \<Rightarrow> overall (snd x) = overall (snd y)
      | Price \<Rightarrow> \<not> isna (price (snd x)) \<and> price (snd x) = price (snd y)
      | Power \<Rightarrow> power_col (snd x) = power_col (snd y)
      | Control \<Rightarrow> control (snd x) = control (snd y)
      | Rebound \<Rightarrow> rebound (snd x) = rebound (snd y)
      | Omgang \<Rightarrow> omgang (snd x) = omgang (snd y)
      | Sweetspot \<Rightarrow> sweetspot (snd x) = sweetspot (snd y)
      | Name \<Rightarrow> \<not> isna (name (snd x)) \<and> name (snd x) = name (snd y))"

subsection \<open>What the sorting algorithm is known to do\<close>

definition total_preorder :: "('a \<Rightarrow> 'a \<Rightarrow> bool) \<Rightarrow> bool" where
  "total_preorder le = ((\<forall>x y. le x y \<or> le y x) \<and> (\<forall>x y z. le x y \<and> le y z \<longrightarrow> le x z))"

text \<open>Every \<^verbatim>\<open>kind\<close> returns the rows it was given, arranged in order.\<close>

definition sorts :: "sorter \<Rightarrow> bool" where
  "sorts kind =
     (\<forall>le xs. total_preorder le \<longrightarrow> mset (kind le xs) = mset xs \<and> sorted_wrt le (kind le xs))"

text \<open>A stable \<^verbatim>\<open>kind\<close> (\<^verbatim>\<open>'mergesort'\<close>, \<^verbatim>\<open>'stable'\<close>) also keeps the order of ties.\<close>

definition stable :: "sorter \<Rightarrow> bool" where
  "stable kind =
     (\<forall>le xs x. total_preorder le \<longrightarrow>
        filter (\<lambda>y. le x y \<and> le y x) (kind le xs) = filter (\<lambda>y. le x y \<and> le y x) xs)"

text \<open>Two algorithms that sort: insertion sort, which is stable, and one that is not.\<close>

fun insort_by :: "('a \<Rightarrow> 'a \<Rightarrow> bool) \<Rightarrow> 'a \<Rightarrow> 'a list \<Rightarrow> 'a list" where
  "insort_by le x [] = [x]"
| "insort_by le x (y # ys) = (if le x y then x # y # ys else y # insort_by le x ys)"

fun insertion_sort :: "('a \<Rightarrow> 'a \<Rightarrow> bool) \<Rightarrow> 'a list \<Rightarrow> 'a list" where
  "insertion_sort le [] = []"
| "insertion_sort le (x # xs) = insort_by le x (insertion_sort le xs)"

definition reversing_sort :: "('a \<Rightarrow> 'a \<Rightarrow> bool) \<Rightarrow> 'a list \<Rightarrow> 'a list" where
  "reversing_sort le xs = insertion_sort le (rev xs)"

subsection \<open>The query\<close>

definition filter_and_sort_data ::
  "sorter \<Rightarrow> dataframe \<Rightarrow> filters \<Rightarrow> column \<Rightarrow> sort_order \<Rightarrow> dataframe outcome" where
  "filter_and_sort_data kind df f sort_by order =
     (case apply_filters df f of
        Returns filtered_df \<Rightarrow> Returns (apply_sorting kind sort_by order filtered_df)
      | Raises e \<Rightarrow> Raises e
      | OutsideFragment \<Rightarrow> OutsideFragment)"

subsection \<open>The average-price metric\<close>

text \<open>
  \<^verbatim>\<open>Series.mean\<close> skips NaN and is NaN when nothing is left. The metric is drawn only
  inside \<^verbatim>\<open>if shown_rackets > 0\<close>: the mean when it is a number, the text "N/A" when
  it is NaN; for an empty result nothing is drawn.
\<close>

definition dropna_prices :: "dataframe \<Rightarrow> rat list" where
  "dropna_prices df = List.map_filter (\<lambda>x. price (snd x)) df"

definition mean_price :: "dataframe \<Rightarrow> rat option" where
  "mean_price df =
     (let ps = dropna_prices df
      in if ps = [] then None else Some (sum_list ps / of_nat (length ps)))"

datatype metric = Euro rat | NotAvailable

definition avg_price_metric :: "dataframe \<Rightarrow> metric option" where
  "avg_price_metric filtered_df =
     (let shown_rackets = length filtered_df
      in if shown_rackets > 0 then
           (case mean_price filtered_df of
              Some avg_price \<Rightarrow> Some (Euro avg_price)
            | None \<Rightarrow> Some NotAvailable)
         else None)"

subsection \<open>Filter specifications that constrain nothing\<close>

text \<open>
  A range is at the full observed bounds of its column when it is the pair of the least and
  the greatest value of the column; for the price, of the prices that are present, and no
  range at all when none is (\<^verbatim>\<open>main\<close> then passes \<^verbatim>\<open>None\<close>).
\<close>

definition full_range :: "(racket \<Rightarrow> int) \<Rightarrow> dataframe \<Rightarrow> int \<times> int \<Rightarrow> bool" where
  "full_range col df rng =
     (df = [] \<or>
      rng = (Min (set (map (\<lambda>x. col (snd x)) df)), Max (set (map (\<lambda>x. col (snd x)) df))))"

definition full_price_range :: "dataframe \<Rightarrow> (rat \<times> rat) option \<Rightarrow> bool" where
  "full_price_range df pr =
     (if dropna_prices df = [] then pr = None
      else pr = Some (Min (set (dropna_prices df)), Max (set (dropna_prices df))))"

definition no_op_filters :: "dataframe \<Rightarrow> filters \<Rightarrow> bool" where
  "no_op_filters df f =
     (name_search f = [] \<and> include_no_price f
      \<and> full_range overall df (overall_range f)
      \<and> full_price_range df (price_range f)
      \<and> full_range power_col df (power_range f)
      \<and> full_range control df (control_range f)
      \<and> full_range rebound df (rebound_range f)
      \<and> full_range omgang df (omgang_range f)
      \<and> full_range sweetspot df (sweetspot_range f))"

subsection \<open>A small catalogue\<close>

definition racket_A :: racket where
  "racket_A = \<lparr>name = Some ''A'', overall = 8, power_col = 7, control = 6, rebound = 5,
     omgang = 6, sweetspot = 7, price = Some 100\<rparr>"

definition racket_B :: racket where
  "racket_B = \<lparr>name = Some ''B'', overall = 6, power_col = 5, control = 8, rebound = 6,
     omgang = 7, sweetspot = 5, price = None\<rparr>"

definition racket_C :: racket where
  "racket_C = \<lparr>name = Some ''C'', overall = 8, power_col = 6, control = 7, rebound = 7,
     omgang = 5, sweetspot = 6, price = Some 50\<rparr>"

definition scenario_table :: dataframe where
  "scenario_table = read_frame [racket_A, racket_B, racket_C]"

text \<open>Every range at the bounds of \<open>scenario_table\<close>, nothing searched, missing prices kept.\<close>

definition default_filters :: filters where
  "default_filters = \<lparr>name_search = [], overall_range = (6, 8), price_range = Some (50, 100),
     include_no_price = True, power_range = (5, 7), control_range = (6, 8),
     rebound_range = (5, 7), omgang_range = (5, 7), sweetspot_range = (5, 7)\<rparr>"

text \<open>
  The filter of the scenario: overall range \<open>[8, 8]\<close>, no price range, missing prices
  kept, every other range at the bounds of \<open>scenario_table\<close>, nothing searched.
\<close>

definition scenario_filters :: filters where
  "scenario_filters = default_filters\<lparr>overall_range := (8, 8), price_range := None\<rparr>"

text \<open>
  The same catalogue with a fourth racket that has a price and no name, so that each of the
  two columns that can have a missing cell has one.
\<close>

definition racket_D :: racket where
  "racket_D = \<lparr>name = None, overall = 7, power_col = 6, control = 7, rebound = 6,
     omgang = 6, sweetspot = 6, price = Some 80\<rparr>"

definition gap_table :: dataframe where
  "gap_table = read_frame [racket_A, racket_B, racket_C, racket_D]"

subsection \<open>The name predicate in the words of the specification\<close>

text \<open>
  A row passes when the search text is empty or its name contains the search text as a
  substring, letter case ignored; a row without a name passes no search but the empty one.
\<close>

definition contains_ci :: "string \<Rightarrow> string \<Rightarrow> bool" where
  "contains_ci s pat = sublist (map lower_char pat) (map lower_char s)"

definition spec_name_predicate :: "string \<Rightarrow> row \<Rightarrow> bool" where
  "spec_name_predicate pat x =
     (pat = [] \<or> (case name (snd x) of None \<Rightarrow> False | Some s \<Rightarrow> contains_ci s pat))"

text \<open>A search text without any character that is special in a regular expression.\<close>

definition plain_text :: "string \<Rightarrow> bool" where
  "plain_text pat = list_all (\<lambda>c. c \<notin> set re_special) pat"

subsection \<open>Ties in table order\<close>

text \<open>
  Every two rows of a result with the same sort key stand as they stood in the table:
  the one with the smaller index label first.
\<close>

definition ties_in_table_order :: "column \<Rightarrow> dataframe \<Rightarrow> bool" where
  "ties_in_table_order col res =
     sorted_wrt (\<lambda>x y. if same_key col x y then fst x < fst y else True) res"

subsection \<open>Frames as objects\<close>

text \<open>
  To tell a frame that is changed from a frame that is built, frames live in a store and
  variables hold references. \<^verbatim>\<open>df.copy()\<close>, \<^verbatim>\<open>filtered_df[mask]\<close> and
  \<^verbatim>\<open>sort_values\<close> (without \<^verbatim>\<open>inplace\<close>) each build a new frame and leave their
  operand as it is; the assignment rebinds \<^verbatim>\<open>filtered_df\<close> to the new frame.
\<close>

record py_heap =
  frames :: "nat \<Rightarrow> dataframe option"
  next_id :: nat

definition new_frame :: "dataframe \<Rightarrow> py_heap \<Rightarrow> nat \<times> py_heap" where
  "new_frame v h =
     (next_id h, h\<lparr>frames := (frames h)(next_id h \<mapsto> v), next_id := Suc (next_id h)\<rparr>)"

text \<open>
  A pandas operation \<open>g\<close> on the frame a variable refers to; the variable and the store
  afterwards. (A reference always points to a frame; for one that does not, nothing happens.)
\<close>

definition derive :: "(dataframe \<Rightarrow> dataframe) \<Rightarrow> nat \<times> py_heap \<Rightarrow> nat \<times> py_heap" where
  "derive g s =
     (case frames (snd s) (fst s) of
        None \<Rightarrow> s
      | Some v \<Rightarrow> new_frame (g v) (snd s))"

text \<open>Whether the price block assigns to \<^verbatim>\<open>filtered_df\<close>: in its \<^verbatim>\<open>if\<close> or its \<^verbatim>\<open>elif\<close>.\<close>

definition price_rebinds :: "filters \<Rightarrow> bool" where
  "price_rebinds f =
     (case price_range f of
        Some rng \<Rightarrow> fst rng \<noteq> snd rng \<or> \<not> include_no_price f
      | None \<Rightarrow> \<not> include_no_price f)"

definition range_step ::
  "(racket \<Rightarrow> int) \<Rightarrow> int \<times> int \<Rightarrow> nat \<times> py_heap \<Rightarrow> nat \<times> py_heap" where
  "range_step col rng s = (if fst rng \<noteq> snd rng then derive (range_filter col rng) s else s)"

text \<open>
  \<^verbatim>\<open>filter_and_sort_data\<close> on references: \<open>df\<close> refers to the table, the result refers
  to the frame returned. The table's own value is needed once, for the type of its name
  column.
\<close>

definition filter_and_sort_data_refs ::
  "sorter \<Rightarrow> nat \<Rightarrow> filters \<Rightarrow> column \<Rightarrow> sort_order \<Rightarrow> py_heap \<Rightarrow> nat outcome \<times> py_heap" where
  "filter_and_sort_data_refs kind df f sort_by order h =
     (let s0 = derive (\<lambda>v. v) (df, h);
          s1 = range_step overall (overall_range f) s0;
          s2 = (if price_rebinds f then derive (price_filter f) s1 else s1);
          s3 = fold (\<lambda>(col, rng) s. range_step col rng s) (attr_ranges f) s2;
          str_ok = (case frames h df of None \<Rightarrow> False | Some v \<Rightarrow> has_str_accessor v)
      in if name_search f = [] then
           (let s5 = derive (apply_sorting kind sort_by order) s3 in (Returns (fst s5), snd s5))
         else if \<not> str_ok then (Raises AttributeError, snd s3)
         else case re_compile (name_search f) of
                Pattern atoms \<Rightarrow>
                  (let s4 = derive (filter (contains_na_false atoms)) s3;
                       s5 = derive (apply_sorting kind sort_by order) s4
                   in (Returns (fst s5), snd s5))
              | BadPattern \<Rightarrow> (Raises ReError, snd s3)
              | Unsupported \<Rightarrow> (OutsideFragment, snd s3))"

text \<open>Every frame of a store has an identity below the next one to be given out.\<close>

definition heap_ok :: "py_heap \<Rightarrow> bool" where
  "heap_ok h = (\<forall>a. frames h a \<noteq> None \<longrightarrow> a < next_id h)"

text \<open>
  A variable bound, in a later store, to a frame built after \<open>h\<close> and holding \<open>v\<close>, with
  every frame of \<open>h\<close> still as it was.
\<close>

definition tracks :: "py_heap \<Rightarrow> dataframe \<Rightarrow> nat \<times> py_heap \<Rightarrow> bool" where
  "tracks h v s =
     (heap_ok (snd s) \<and> next_id h \<le> fst s \<and> frames (snd s) (fst s) = Some v
      \<and> (\<forall>a. a < next_id h \<longrightarrow> frames (snd s) a = frames h a))"

text \<open>A store holding the scenario's table and nothing else.\<close>

definition scenario_heap :: py_heap where
  "scenario_heap = \<lparr>frames = (\<lambda>a. if a = 0 then Some scenario_table else None), next_id = 1\<rparr>"

text \<open>The rating a rating column holds (the price and the name are no ratings).\<close>

fun int_col :: "column \<Rightarrow> racket \<Rightarrow> int" where
  "int_col Overall = overall"
| "int_col Power = power_col"
| "int_col Control = control"
| "int_col Rebound = rebound"
| "int_col Omgang = omgang"
| "int_col Sweetspot = sweetspot"
| "int_col Price = (\<lambda>r. 0)"
| "int_col Name = (\<lambda>r. 0)"

section \<open>Properties\<close>

subsection \<open>Filters at the full bounds\<close>

lemma range_filter_full:
  assumes "full_range col df rng"
  shows "range_filter col rng df = df"
proof (cases "df = []")
  case True
  then show ?thesis by (simp add: range_filter_def)
next
  case False
  let ?vs = "set (map (\<lambda>x. col (snd x)) df)"
  from False assms have rng: "rng = (Min ?vs, Max ?vs)"
    by (simp add: full_range_def)
  have "Min ?vs \<le> col (snd x) \<and> col (snd x) \<le> Max ?vs" if "x \<in> set df" for x
  proof -
    from that have "col (snd x) \<in> ?vs" by simp
    then show ?thesis by (simp only: Min_le Max_ge List.finite_set simp_thms)
  qed
  then show ?thesis by (simp add: rng range_filter_def filter_id_conv)
qed

lemma dropna_prices_mem:
  "price (snd x) = Some p \<Longrightarrow> x \<in> set df \<Longrightarrow> p \<in> set (dropna_prices df)"
  unfolding dropna_prices_def List.map_filter_def by force

lemma price_filter_full:
  assumes "full_price_range df (price_range f)" and "include_no_price f"
  shows "price_filter f df = df"
proof (cases "dropna_prices df = []")
  case True
  with assms show ?thesis by (simp add: full_price_range_def price_filter_def)
next
  case False
  let ?ps = "dropna_prices df"
  from False assms have pr: "price_range f = Some (Min (set ?ps), Max (set ?ps))"
    by (simp add: full_price_range_def)
  have "price_mask f (Min (set ?ps), Max (set ?ps)) x" if "x \<in> set df" for x
  proof (cases "price (snd x)")
    case None
    with assms show ?thesis by (simp add: price_mask_def isna_def)
  next
    case (Some p)
    from Some that have "p \<in> set ?ps" by (rule dropna_prices_mem)
    then have "Min (set ?ps) \<le> p" "p \<le> Max (set ?ps)" by simp_all
    with Some show ?thesis by (simp add: price_mask_def nan_ge_def nan_le_def)
  qed
  then show ?thesis using pr assms by (simp add: price_filter_def filter_id_conv)
qed

lemma scenario_table_rows:
  "scenario_table = [(0, racket_A), (1, racket_B), (2, racket_C)]"
  by (simp add: scenario_table_def read_frame_def upt_rec)

lemma default_filters_no_op: "no_op_filters scenario_table default_filters"
  by (simp add: no_op_filters_def full_range_def full_price_range_def dropna_prices_def
      scenario_table_rows default_filters_def racket_A_def racket_B_def racket_C_def)

text \<open>
  C3. When every numeric range is at the full observed bounds of its column, missing
  prices are included and nothing is searched for, the filters return the whole table,
  every row in its place.
\<close>

theorem no_op_filters_identity:
  assumes "no_op_filters df f"
  shows "apply_filters df f = Returns df"
  using assms
  by (simp add: no_op_filters_def apply_filters_def name_filter_def attr_filters_def
      attr_ranges_def range_filter_full price_filter_full)

theorem no_op_filters_identity_witness:
  "no_op_filters scenario_table default_filters
   \<and> apply_filters scenario_table default_filters
       = Returns [(0, racket_A), (1, racket_B), (2, racket_C)]"
  using no_op_filters_identity [OF default_filters_no_op] default_filters_no_op
  by (simp add: scenario_table_rows)

subsection \<open>The price filter\<close>

text \<open>
  C4. Under a supplied price range whose ends differ, a row without a price passes the
  price filter exactly when missing prices are included, whatever the bounds; a row with a
  price passes exactly when the price lies within the bounds.
\<close>

theorem price_filter_nondegenerate:
  assumes "price_range f = Some (lo, hi)" and "lo \<noteq> hi"
  shows "price_filter f df =
           filter (\<lambda>x. case price (snd x) of
                         None \<Rightarrow> include_no_price f
                       | Some p \<Rightarrow> lo \<le> p \<and> p \<le> hi) df"
  using assms
  by (auto simp: price_filter_def price_mask_def nan_ge_def nan_le_def isna_def
      intro!: filter_cong split: option.splits)

theorem price_filter_nondegenerate_witness:
  "price_range (default_filters\<lparr>price_range := Some (60, 150)\<rparr>) = Some (60, 150)
   \<and> (60 :: rat) \<noteq> 150
   \<and> price_filter (default_filters\<lparr>price_range := Some (60, 150)\<rparr>) scenario_table
       = [(0, racket_A), (1, racket_B)]
   \<and> price_filter (default_filters\<lparr>price_range := Some (60, 150), include_no_price := False\<rparr>)
         scenario_table
       = [(0, racket_A)]"
  using price_filter_nondegenerate
          [of "default_filters\<lparr>price_range := Some (60, 150)\<rparr>" 60 150 scenario_table]
        price_filter_nondegenerate
          [of "default_filters\<lparr>price_range := Some (60, 150), include_no_price := False\<rparr>"
              60 150 scenario_table]
  by (simp add: scenario_table_rows default_filters_def racket_A_def racket_B_def racket_C_def)

text \<open>
  C10. Under a supplied price range whose two ends are equal, with missing prices not
  included, the price filter drops exactly the rows without a price and puts no bound on
  the prices that are present, whatever the common end is.
\<close>

theorem price_filter_degenerate:
  assumes "price_range f = Some (lo, lo)" and "\<not> include_no_price f"
  shows "price_filter f df = filter (\<lambda>x. price (snd x) \<noteq> None) df"
  using assms
  by (auto simp: price_filter_def isna_def intro!: filter_cong split: option.splits)

theorem price_filter_degenerate_witness:
  "price_range (default_filters\<lparr>price_range := Some (70, 70), include_no_price := False\<rparr>)
     = Some (70, 70)
   \<and> \<not> include_no_price (default_filters\<lparr>price_range := Some (70, 70), include_no_price := False\<rparr>)
   \<and> price_filter (default_filters\<lparr>price_range := Some (70, 70), include_no_price := False\<rparr>)
         scenario_table
       = [(0, racket_A), (2, racket_C)]"
  using price_filter_degenerate
          [of "default_filters\<lparr>price_range := Some (70, 70), include_no_price := False\<rparr>"
              70 scenario_table]
  by (simp add: scenario_table_rows default_filters_def racket_A_def racket_B_def racket_C_def)

subsection \<open>Evaluating the model on the small catalogue\<close>

lemmas ev = scenario_table_rows default_filters_def scenario_filters_def
  racket_A_def racket_B_def racket_C_def
  apply_filters_def name_filter_def attr_filters_def attr_ranges_def range_filter_def
  price_filter_def price_mask_def isna_def nan_ge_def nan_le_def has_str_accessor_def
  re_compile_def re_special_def contains_na_false_def lower_char_def
  filter_and_sort_data_def apply_sorting_def sort_by_column_def sort_values_def
  reversing_sort_def

subsection \<open>Sorting\<close>


lemma mset_insort_by: "mset (insort_by le x xs) = add_mset x (mset xs)"
  by (induction xs) auto

lemma mset_insertion_sort: "mset (insertion_sort le xs) = mset xs"
  by (induction xs) (auto simp: mset_insort_by)

lemma set_insort_by: "set (insort_by le x xs) = insert x (set xs)"
  by (induction xs) auto

lemma sorted_insort_by:
  assumes "total_preorder le" and "sorted_wrt le xs"
  shows "sorted_wrt le (insort_by le x xs)"
  using assms(2)
proof (induction xs)
  case Nil
  then show ?case by simp
next
  case (Cons y ys)
  from assms(1) have tot: "\<And>a b. le a b \<or> le b a" and tr: "\<And>a b c. le a b \<Longrightarrow> le b c \<Longrightarrow> le a c"
    unfolding total_preorder_def by blast+
  show ?case
  proof (cases "le x y")
    case True
    with Cons.prems tr show ?thesis by auto
  next
    case False
    with tot have "le y x" by blast
    with False Cons show ?thesis by (auto simp: set_insort_by)
  qed
qed

lemma sorted_insertion_sort: "total_preorder le \<Longrightarrow> sorted_wrt le (insertion_sort le xs)"
  by (induction xs) (auto simp: sorted_insort_by)

lemma insertion_sort_sorts: "sorts insertion_sort"
  by (simp add: sorts_def mset_insertion_sort sorted_insertion_sort)

lemma reversing_sort_sorts: "sorts reversing_sort"
  by (simp add: sorts_def reversing_sort_def mset_insertion_sort sorted_insertion_sort)

lemma filter_insort_by:
  assumes "total_preorder le"
  shows "filter (\<lambda>y. le x y \<and> le y x) (insort_by le a xs) =
           (if le x a \<and> le a x then a # filter (\<lambda>y. le x y \<and> le y x) xs
            else filter (\<lambda>y. le x y \<and> le y x) xs)"
proof -
  from assms have tr: "\<And>a b c. le a b \<Longrightarrow> le b c \<Longrightarrow> le a c"
    unfolding total_preorder_def by blast
  show ?thesis
  proof (induction xs)
    case Nil
    then show ?case by simp
  next
    case (Cons y ys)
    show ?case
    proof (cases "le a y")
      case True
      then show ?thesis by simp
    next
      case False
      have "\<not> (le x y \<and> le y x)" if "le x a" "le a x"
        using that False tr by blast
      with False Cons.IH show ?thesis by auto
    qed
  qed
qed

lemma insertion_sort_stable: "stable insertion_sort"
  unfolding stable_def
proof (intro allI impI)
  fix le :: "row \<Rightarrow> row \<Rightarrow> bool" and xs x
  assume tp: "total_preorder le"
  show "filter (\<lambda>y. le x y \<and> le y x) (insertion_sort le xs) = filter (\<lambda>y. le x y \<and> le y x) xs"
    by (induction xs) (simp_all add: filter_insort_by [OF tp])
qed



lemma key_le_total:
  "total_preorder (\<lambda>x y. (key (snd x) :: 'k::linorder option) \<le> key (snd y))"
  unfolding total_preorder_def
proof (intro conjI allI impI)
  fix x y :: "'a \<times> 'b"
  show "key (snd x) \<le> key (snd y) \<or> key (snd y) \<le> key (snd x)" by (rule linear)
next
  fix x y z :: "'a \<times> 'b"
  assume "key (snd x) \<le> key (snd y) \<and> key (snd y) \<le> key (snd z)"
  then show "key (snd x) \<le> key (snd z)" by (elim conjE) (rule order_trans)
qed

lemma sorts_set: "sorts kind \<Longrightarrow> total_preorder le \<Longrightarrow> set (kind le xs) = set xs"
  unfolding sorts_def by (metis set_mset_mset)

lemma sort_values_split:
  assumes "sorts kind"
  shows "\<exists>ps. sort_values kind key asc df = ps @ filter (\<lambda>x. isna (key (snd x))) df
              \<and> set ps = set (filter (\<lambda>x. \<not> isna (key (snd x))) df)"
  using assms
  by (cases asc) (simp_all add: sort_values_def Let_def sorts_set key_le_total)

lemma set_sort_values:
  assumes "sorts kind"
  shows "set (sort_values kind key asc df) = set df"
proof -
  from sort_values_split [OF assms, of key asc df] obtain ps where
    "sort_values kind key asc df = ps @ filter (\<lambda>x. isna (key (snd x))) df"
    "set ps = set (filter (\<lambda>x. \<not> isna (key (snd x))) df)" by blast
  then show ?thesis by auto
qed

lemma apply_sorting_int:
  assumes "sb \<noteq> Price" and "sb \<noteq> Name"
  shows "apply_sorting kind sb ord df = sort_values kind (\<lambda>r. Some (int_col sb r)) (ord = Asc) df"
    and "key_missing sb x = isna (Some (int_col sb (snd x)))"
    and "same_key sb x y = (Some (int_col sb (snd x)) = Some (int_col sb (snd y)))"
  using assms
  by (cases sb; simp add: apply_sorting_def sort_by_column_def key_missing_def same_key_def isna_def)+

lemma apply_sorting_price:
  "apply_sorting kind Price ord df = sort_values kind price (ord = Asc) df"
  "key_missing Price x = isna (price (snd x))"
  "same_key Price x y \<Longrightarrow> price (snd x) = price (snd y)"
  by (cases ord; simp add: apply_sorting_def key_missing_def same_key_def)+

lemma apply_sorting_name:
  "apply_sorting kind Name ord df = sort_values kind name (ord = Asc) df"
  "key_missing Name x = isna (name (snd x))"
  "same_key Name x y \<Longrightarrow> name (snd x) = name (snd y)"
  by (cases ord; simp add: apply_sorting_def sort_by_column_def key_missing_def same_key_def)+

lemma filter_and_sort_data_Returns:
  assumes "filter_and_sort_data kind df f sb ord = Returns res"
  obtains fdf where "apply_filters df f = Returns fdf" and "res = apply_sorting kind sb ord fdf"
  using assms unfolding filter_and_sort_data_def by (auto split: outcome.splits)

lemma sort_values_kept:
  assumes "sorts kind"
  shows "\<exists>ps. sort_values kind key asc df = ps @ filter (\<lambda>x. isna (key (snd x))) df
              \<and> mset ps = mset (filter (\<lambda>x. \<not> isna (key (snd x))) df)"
proof -
  let ?le = "\<lambda>x y. key (snd x) \<le> key (snd y)"
  have m: "mset (kind ?le zs) = mset zs" for zs
    using assms key_le_total [of key] unfolding sorts_def by blast
  show ?thesis
    by (cases asc) (simp_all add: sort_values_def Let_def m)
qed

lemma apply_sorting_missing_last:
  assumes "sorts kind"
  shows "\<exists>ps. apply_sorting kind sb ord fdf = ps @ filter (key_missing sb) fdf
              \<and> mset ps = mset (filter (\<lambda>x. \<not> key_missing sb x) fdf)"
proof -
  consider (price) "sb = Price" | (name) "sb = Name" | (rating) "sb \<noteq> Price" "sb \<noteq> Name"
    by blast
  then show ?thesis
  proof cases
    case price
    have "key_missing sb = (\<lambda>x. isna (price (snd x)))"
      by (simp add: price fun_eq_iff apply_sorting_price(2))
    with sort_values_kept [OF assms, of price "ord = Asc" fdf] show ?thesis
      by (simp add: price apply_sorting_price(1))
  next
    case name
    have "key_missing sb = (\<lambda>x. isna (name (snd x)))"
      by (simp add: name fun_eq_iff apply_sorting_name(2))
    with sort_values_kept [OF assms, of name "ord = Asc" fdf] show ?thesis
      by (simp add: name apply_sorting_name(1))
  next
    case rating
    have "key_missing sb = (\<lambda>x. isna (Some (int_col sb (snd x))))"
      by (simp add: rating fun_eq_iff apply_sorting_int(2))
    with sort_values_kept [OF assms, of "\<lambda>r. Some (int_col sb r)" "ord = Asc" fdf] show ?thesis
      by (simp add: rating apply_sorting_int(1))
  qed
qed

text \<open>
  C5. For every sort column and in both directions, sorting a frame gives the rows whose
  sort key is present, in some arrangement and none lost or added, followed by the rows
  whose sort key is missing, in frame order. This holds of every frame, whatever the name
  search was; and whenever the filters return the frame, this is the result of the query.
  So in the result every row with a missing sort key stands after every row with a present
  one.
\<close>

theorem missing_keys_last:
  assumes "sorts kind"
  shows "\<exists>ps. apply_sorting kind sb ord fdf = ps @ filter (key_missing sb) fdf
              \<and> mset ps = mset (filter (\<lambda>x. \<not> key_missing sb x) fdf)
              \<and> (\<forall>x\<in>set ps. \<not> key_missing sb x)
              \<and> (apply_filters df f = Returns fdf \<longrightarrow>
                   filter_and_sort_data kind df f sb ord
                     = Returns (ps @ filter (key_missing sb) fdf))"
proof -
  from apply_sorting_missing_last [OF assms, of sb ord fdf]
  obtain ps where ps: "apply_sorting kind sb ord fdf = ps @ filter (key_missing sb) fdf"
    and m: "mset ps = mset (filter (\<lambda>x. \<not> key_missing sb x) fdf)"
    by blast
  from m have "set ps = set (filter (\<lambda>x. \<not> key_missing sb x) fdf)"
    by (rule mset_eq_setD)
  then have present: "\<forall>x\<in>set ps. \<not> key_missing sb x"
    by simp
  have "filter_and_sort_data kind df f sb ord = Returns (ps @ filter (key_missing sb) fdf)"
    if "apply_filters df f = Returns fdf"
    using that ps by (simp add: filter_and_sort_data_def)
  with ps m present show ?thesis by blast
qed

lemma gap_table_rows:
  "gap_table = [(0, racket_A), (1, racket_B), (2, racket_C), (3, racket_D)]"
  by (simp add: gap_table_def read_frame_def upt_rec)

lemmas gap_ev = gap_table_rows racket_D_def

lemma gap_filtered:
  "apply_filters gap_table default_filters
     = Returns [(0, racket_A), (1, racket_B), (2, racket_C), (3, racket_D)]"
  by (simp add: ev gap_ev)

lemma gap_price_asc:
  "filter_and_sort_data insertion_sort gap_table default_filters Price Asc
     = Returns ([(2, racket_C), (3, racket_D), (0, racket_A)] @ [(1, racket_B)])"
  by (simp add: ev gap_ev)

lemma gap_price_desc:
  "filter_and_sort_data insertion_sort gap_table default_filters Price Desc
     = Returns ([(0, racket_A), (3, racket_D), (2, racket_C)] @ [(1, racket_B)])"
  by (simp add: ev gap_ev)

lemma gap_name_desc:
  "filter_and_sort_data insertion_sort gap_table default_filters Name Desc
     = Returns ([(2, racket_C), (1, racket_B), (0, racket_A)] @ [(3, racket_D)])"
  by (simp add: ev gap_ev)

lemma gap_name_asc:
  "filter_and_sort_data insertion_sort gap_table default_filters Name Asc
     = Returns ([(0, racket_A), (1, racket_B), (2, racket_C)] @ [(3, racket_D)])"
  by (simp add: ev gap_ev)

theorem missing_keys_last_witness:
  "sorts insertion_sort
   \<and> apply_filters gap_table default_filters
       = Returns [(0, racket_A), (1, racket_B), (2, racket_C), (3, racket_D)]
   \<and> filter_and_sort_data insertion_sort gap_table default_filters Price Asc
       = Returns ([(2, racket_C), (3, racket_D), (0, racket_A)] @ [(1, racket_B)])
   \<and> filter_and_sort_data insertion_sort gap_table default_filters Price Desc
       = Returns ([(0, racket_A), (3, racket_D), (2, racket_C)] @ [(1, racket_B)])
   \<and> filter_and_sort_data insertion_sort gap_table default_filters Name Asc
       = Returns ([(0, racket_A), (1, racket_B), (2, racket_C)] @ [(3, racket_D)])
   \<and> filter_and_sort_data insertion_sort gap_table default_filters Name Desc
       = Returns ([(2, racket_C), (1, racket_B), (0, racket_A)] @ [(3, racket_D)])
   \<and> (\<exists>ps. filter_and_sort_data insertion_sort gap_table default_filters Price Desc
              = Returns (ps @ [(1, racket_B)])
            \<and> mset ps = mset [(0, racket_A), (2, racket_C), (3, racket_D)])
   \<and> (\<exists>ps. filter_and_sort_data insertion_sort gap_table default_filters Name Asc
              = Returns (ps @ [(3, racket_D)])
            \<and> mset ps = mset [(0, racket_A), (1, racket_B), (2, racket_C)])"
proof -
  let ?rows = "[(0, racket_A), (1, racket_B), (2, racket_C), (3, racket_D)]"
  have mp: "filter (key_missing Price) ?rows = [(1, racket_B)]"
    and pp: "filter (\<lambda>x. \<not> key_missing Price x) ?rows = [(0, racket_A), (2, racket_C), (3, racket_D)]"
    and mn: "filter (key_missing Name) ?rows = [(3, racket_D)]"
    and pn: "filter (\<lambda>x. \<not> key_missing Name x) ?rows = [(0, racket_A), (1, racket_B), (2, racket_C)]"
    by (simp_all add: key_missing_def isna_def racket_A_def racket_B_def racket_C_def
        racket_D_def)
  from missing_keys_last [OF insertion_sort_sorts, where sb = Price and ord = Desc
      and fdf = ?rows and df = gap_table and f = default_filters] gap_filtered
  have d: "\<exists>ps. filter_and_sort_data insertion_sort gap_table default_filters Price Desc
              = Returns (ps @ [(1, racket_B)])
            \<and> mset ps = mset [(0, racket_A), (2, racket_C), (3, racket_D)]"
    unfolding mp pp by blast
  from missing_keys_last [OF insertion_sort_sorts, where sb = Name and ord = Asc
      and fdf = ?rows and df = gap_table and f = default_filters] gap_filtered
  have a: "\<exists>ps. filter_and_sort_data insertion_sort gap_table default_filters Name Asc
              = Returns (ps @ [(3, racket_D)])
            \<and> mset ps = mset [(0, racket_A), (1, racket_B), (2, racket_C)]"
    unfolding mn pn by blast
  from insertion_sort_sorts gap_filtered gap_price_asc gap_price_desc
    gap_name_asc gap_name_desc d a show ?thesis
    by (intro conjI)
qed

lemma two_sorted:
  assumes "sorts kind" and "total_preorder le" and "\<not> le b a"
  shows "kind le [a, b] = [a, b]"
proof -
  from assms(1,2) have m: "mset (kind le [a, b]) = mset [a, b]"
    and s: "sorted_wrt le (kind le [a, b])" unfolding sorts_def by blast+
  from m have "size (mset (kind le [a, b])) = size (mset [a, b])" by (rule arg_cong)
  then have "length (kind le [a, b]) = Suc (Suc 0)" by simp
  then obtain y1 y2 where ys: "kind le [a, b] = [y1, y2]"
    by (auto simp: length_Suc_conv)
  from mset_eq_setD [OF m] have "{y1, y2} = {a, b}" by (simp add: ys)
  then have "(y1 = a \<and> y2 = b) \<or> (y1 = b \<and> y2 = a)" by (simp add: doubleton_eq_iff)
  moreover from s have "le y1 y2" by (simp add: ys)
  ultimately show ?thesis using assms(3) ys by blast
qed

lemma sorted_wrt_filter_nth:
  assumes "sorted_wrt R (filter Q xs)" and "i < j" and "j < length xs"
    and "Q (xs ! i)" and "Q (xs ! j)"
  shows "R (xs ! i) (xs ! j)"
  using assms
proof (induction xs arbitrary: i j)
  case Nil
  then show ?case by simp
next
  case (Cons x xs)
  from Cons.prems(2) obtain j' where j: "j = Suc j'" by (cases j) auto
  from Cons.prems(1) have tl: "sorted_wrt R (filter Q xs)" by (auto split: if_splits)
  show ?case
  proof (cases i)
    case 0
    from Cons.prems j have "xs ! j' \<in> set (filter Q xs)" by simp
    with Cons.prems 0 j show ?thesis by auto
  next
    case (Suc i')
    with Cons.prems j tl Cons.IH [of i' j'] show ?thesis by simp
  qed
qed

lemma sort_values_stable:
  assumes "sorts kind" and "stable kind"
  shows "filter (\<lambda>x. key (snd x) = k) (sort_values kind key asc df)
           = filter (\<lambda>x. (key (snd x) :: 'k::linorder option) = k) df"
proof (cases "\<exists>x\<in>set df. key (snd x) = k")
  case False
  then have "filter (\<lambda>x. key (snd x) = k) df = []" by (simp add: filter_empty_conv)
  moreover from False have "filter (\<lambda>x. key (snd x) = k) (sort_values kind key asc df) = []"
    by (simp add: filter_empty_conv set_sort_values [OF assms(1)])
  ultimately show ?thesis by simp
next
  case True
  then obtain x :: row where x: "key (snd x) = k" by blast
  let ?le = "\<lambda>x y. key (snd x) \<le> key (snd y)"
  let ?P = "\<lambda>y. key (snd y) = k"
  have P: "?P = (\<lambda>y. ?le x y \<and> ?le y x)" using x by (auto simp: fun_eq_iff)
  have st: "filter ?P (kind ?le zs) = filter ?P zs" for zs
    using assms(2) key_le_total [of key] unfolding stable_def P by blast
  have sorted_part: "filter ?P (if asc then kind ?le zs else rev (kind ?le (rev zs))) = filter ?P zs" for zs
    by (simp add: st rev_filter [symmetric])
  have split: "filter ?P (filter (\<lambda>x. \<not> isna (key (snd x))) df) @ filter ?P (filter (\<lambda>x. isna (key (snd x))) df)
                 = filter ?P df"
  proof (cases k)
    case None
    have "filter ?P (filter (\<lambda>x. \<not> isna (key (snd x))) df) = []"
      by (induction df) (simp_all add: None isna_def)
    moreover have "filter ?P (filter (\<lambda>x. isna (key (snd x))) df) = filter ?P df"
      by (induction df) (simp_all add: None isna_def)
    ultimately show ?thesis by simp
  next
    case (Some v)
    have "filter ?P (filter (\<lambda>x. isna (key (snd x))) df) = []"
      by (induction df) (simp_all add: Some isna_def)
    moreover have "filter ?P (filter (\<lambda>x. \<not> isna (key (snd x))) df) = filter ?P df"
      by (induction df) (simp_all add: Some isna_def)
    ultimately show ?thesis by simp
  qed
  show ?thesis
    unfolding sort_values_def Let_def filter_append sorted_part by (rule split)
qed

subsection \<open>The scenario, and ties\<close>

lemma racket_prices:
  "price racket_A = Some 100" "price racket_B = None" "price racket_C = Some 50"
  by (simp_all add: racket_A_def racket_B_def racket_C_def)

lemma scenario_filtered:
  "apply_filters scenario_table scenario_filters = Returns [(0, racket_A), (1, racket_B), (2, racket_C)]"
  by (simp add: ev)

lemma scenario_price_desc:
  assumes "sorts kind"
  shows "filter_and_sort_data kind scenario_table scenario_filters Price Desc
           = Returns [(0, racket_A), (2, racket_C), (1, racket_B)]"
proof -
  have "kind (\<lambda>x y. price (snd x) \<le> price (snd y)) [(2, racket_C), (0, racket_A)]
          = [(2, racket_C), (0, racket_A)]"
    by (rule two_sorted [OF assms key_le_total]) (simp add: racket_prices)
  then show ?thesis
    by (simp add: filter_and_sort_data_def scenario_filtered apply_sorting_def sort_values_def
        isna_def racket_prices)
qed

text \<open>
  C1, as the code has it. On the table A (overall 8, price 100), B (overall 6, no price),
  C (overall 8, price 50), with overall range \<open>[8, 8]\<close>, missing prices included, no
  price range, every other range at its bounds and no search text, sorted by price
  descending, the query returns A, C, B: the two ends of the overall range are equal, so
  the overall filter is skipped and B stays, placed last for its missing price.
\<close>

theorem scenario_query_result:
  assumes "sorts kind"
  shows "filter_and_sort_data kind scenario_table scenario_filters Price Desc
           = Returns [(0, racket_A), (2, racket_C), (1, racket_B)]"
  using assms by (rule scenario_price_desc)

theorem scenario_query_result_witness:
  "sorts insertion_sort
   \<and> filter_and_sort_data insertion_sort scenario_table scenario_filters Price Desc
       = Returns [(0, racket_A), (2, racket_C), (1, racket_B)]"
  using scenario_query_result [OF insertion_sort_sorts] insertion_sort_sorts by simp

theorem scenario_keeps_B_counterexample:
  "filter_and_sort_data insertion_sort scenario_table scenario_filters Price Desc
     = Returns [(0, racket_A), (2, racket_C), (1, racket_B)]
   \<and> filter_and_sort_data insertion_sort scenario_table scenario_filters Price Desc
     \<noteq> Returns [(0, racket_A), (2, racket_C)]"
  by (simp add: scenario_price_desc [OF insertion_sort_sorts])

lemma read_frame_labels: "sorted_wrt (\<lambda>x y. fst x < fst y) (read_frame rs)"
  by (simp add: read_frame_def sorted_wrt_iff_nth_less)

lemma range_filter_sorted: "sorted_wrt R df \<Longrightarrow> sorted_wrt R (range_filter col rng df)"
  by (simp add: range_filter_def sorted_wrt_filter)

lemma price_filter_sorted: "sorted_wrt R df \<Longrightarrow> sorted_wrt R (price_filter f df)"
  by (simp add: price_filter_def sorted_wrt_filter split: option.splits)

lemma attr_filters_sorted: "sorted_wrt R df \<Longrightarrow> sorted_wrt R (attr_filters f df)"
  by (simp add: attr_filters_def attr_ranges_def range_filter_sorted)

lemma apply_filters_sorted:
  assumes "apply_filters df f = Returns fdf" and "sorted_wrt R df"
  shows "sorted_wrt R fdf"
proof -
  let ?d = "attr_filters f (price_filter f (range_filter overall (overall_range f) df))"
  from assms(2) have d: "sorted_wrt R ?d"
    by (intro attr_filters_sorted price_filter_sorted range_filter_sorted)
  from assms(1) have "fdf = ?d \<or> (\<exists>P. fdf = filter P ?d)"
    by (auto simp: apply_filters_def name_filter_def split: if_splits re_compiled.splits)
  with d show ?thesis by (auto simp: sorted_wrt_filter)
qed

lemma sort_values_ties:
  assumes "sorts kind" and "stable kind"
    and "sorted_wrt (\<lambda>x y. fst x < fst y) df"
    and "res = sort_values kind key asc df"
    and "i < j" and "j < length res"
    and "key (snd (res ! i)) = (key (snd (res ! j)) :: 'k::linorder option)"
  shows "fst (res ! i) < fst (res ! j)"
proof -
  let ?Q = "\<lambda>x. key (snd x) = key (snd (res ! j))"
  have "filter ?Q res = filter ?Q df"
    unfolding assms(4) [symmetric, THEN sym]
    using sort_values_stable [OF assms(1,2), of key "key (snd (res ! j))" asc df] assms(4) by simp
  moreover from assms(3) have "sorted_wrt (\<lambda>x y. fst x < fst y) (filter ?Q df)"
    by (rule sorted_wrt_filter)
  ultimately have "sorted_wrt (\<lambda>x y. fst x < fst y) (filter ?Q res)" by simp
  then show ?thesis using assms(5,6,7) by (rule sorted_wrt_filter_nth) simp
qed

text \<open>
  The order of ties. When the sorting algorithm is stable, every two rows of the result with
  the same present sort key stand in the order of the table. The source leaves the algorithm
  at the default \<^verbatim>\<open>'quicksort'\<close>, of which pandas promises a sorted result only; what
  that algorithm does with ties is decided inside numpy and is not modelled, so nothing is
  stated here about the order of ties under it.
\<close>

lemma stable_kind_keeps_ties:
  assumes "sorts kind" and "stable kind"
    and "filter_and_sort_data kind (read_frame rs) f sb ord = Returns res"
  shows "ties_in_table_order sb res"
proof -
  from assms(3) obtain fdf where fdf: "apply_filters (read_frame rs) f = Returns fdf"
    and res: "res = apply_sorting kind sb ord fdf"
    by (rule filter_and_sort_data_Returns)
  from fdf read_frame_labels have lab: "sorted_wrt (\<lambda>x y. fst x < fst y) fdf"
    by (rule apply_filters_sorted)
  have "fst (res ! i) < fst (res ! j)"
    if ij: "i < j" "j < length res" and same: "same_key sb (res ! i) (res ! j)" for i j
  proof -
    consider (price) "sb = Price" | (name) "sb = Name" | (rating) "sb \<noteq> Price" "sb \<noteq> Name"
      by blast
    then show ?thesis
    proof cases
      case price
      from res price have r: "res = sort_values kind price (ord = Asc) fdf"
        by (simp add: apply_sorting_price(1))
      from same price have "price (snd (res ! i)) = price (snd (res ! j))"
        by (simp add: apply_sorting_price(3))
      with assms(1,2) lab r ij show ?thesis by (rule sort_values_ties)
    next
      case name
      from res name have r: "res = sort_values kind name (ord = Asc) fdf"
        by (simp add: apply_sorting_name(1))
      from same name have "name (snd (res ! i)) = name (snd (res ! j))"
        by (simp add: apply_sorting_name(3))
      with assms(1,2) lab r ij show ?thesis by (rule sort_values_ties)
    next
      case rating
      from res rating have r: "res = sort_values kind (\<lambda>r. Some (int_col sb r)) (ord = Asc) fdf"
        by (simp add: apply_sorting_int(1))
      from same rating have "Some (int_col sb (snd (res ! i))) = Some (int_col sb (snd (res ! j)))"
        by (simp add: apply_sorting_int(3))
      with assms(1,2) lab r ij show ?thesis by (rule sort_values_ties)
    qed
  qed
  then show ?thesis
    by (simp add: ties_in_table_order_def sorted_wrt_iff_nth_less)
qed

lemma insertion_sort_keeps_ties:
  "sorts insertion_sort \<and> stable insertion_sort
   \<and> filter_and_sort_data insertion_sort scenario_table default_filters Overall Asc
       = Returns [(1, racket_B), (0, racket_A), (2, racket_C)]
   \<and> ties_in_table_order Overall [(1, racket_B), (0, racket_A), (2, racket_C)]"
proof -
  have e: "filter_and_sort_data insertion_sort scenario_table default_filters Overall Asc
           = Returns [(1, racket_B), (0, racket_A), (2, racket_C)]"
    by (simp add: ev)
  from stable_kind_keeps_ties [OF insertion_sort_sorts insertion_sort_stable,
      of "[racket_A, racket_B, racket_C]", folded scenario_table_def, OF e]
    insertion_sort_sorts insertion_sort_stable e
  show ?thesis by simp
qed

text \<open>
  Being sorted and a rearrangement of the input does not by itself fix the order of ties:
  \<open>reversing_sort\<close> meets \<open>sorts\<close> and returns two rows with the same rating the other
  way round.
\<close>

lemma sorts_leaves_ties_open:
  "sorts reversing_sort
   \<and> filter_and_sort_data reversing_sort scenario_table default_filters Overall Asc
       = Returns [(1, racket_B), (2, racket_C), (0, racket_A)]
   \<and> \<not> ties_in_table_order Overall [(1, racket_B), (2, racket_C), (0, racket_A)]"
proof -
  have "filter_and_sort_data reversing_sort scenario_table default_filters Overall Asc
          = Returns [(1, racket_B), (2, racket_C), (0, racket_A)]"
    by (simp add: ev)
  moreover have "\<not> ties_in_table_order Overall [(1, racket_B), (2, racket_C), (0, racket_A)]"
    by (simp add: ties_in_table_order_def same_key_def racket_A_def racket_B_def racket_C_def)
  ultimately show ?thesis using reversing_sort_sorts by simp
qed


subsection \<open>The average-price metric\<close>

lemma dropna_prices_empty:
  "dropna_prices df = [] \<longleftrightarrow> list_all (\<lambda>x. price (snd x) = None) df"
  by (induction df) (auto simp: dropna_prices_def split: option.splits)

text \<open>
  C8, as the code has it. Over a result that is not empty the metric is the arithmetic mean
  of the prices that are present, or the text "N/A" when every price is missing; over an
  empty result no average-price metric is drawn at all.
\<close>

theorem avg_price_metric_cases:
  "avg_price_metric df =
     (if df = [] then None
      else if list_all (\<lambda>x. price (snd x) = None) df then Some NotAvailable
      else Some (Euro (sum_list (dropna_prices df) / of_nat (length (dropna_prices df)))))"
  by (simp add: avg_price_metric_def mean_price_def Let_def dropna_prices_empty [symmetric])

theorem avg_price_empty_counterexample:
  "apply_filters scenario_table (default_filters\<lparr>name_search := ''zzz''\<rparr>) = Returns []
   \<and> avg_price_metric [] = None
   \<and> avg_price_metric [] \<noteq> Some NotAvailable"
  by (simp add: ev avg_price_metric_def)

theorem avg_price_metric_examples:
  "avg_price_metric scenario_table = Some (Euro 75)
   \<and> avg_price_metric [(1, racket_B)] = Some NotAvailable"
  using avg_price_metric_cases [of scenario_table] avg_price_metric_cases [of "[(1, racket_B)]"]
  by (simp add: scenario_table_rows dropna_prices_def racket_A_def racket_B_def racket_C_def)

subsection \<open>The name filter\<close>

text \<open>
  C6 at the search text \<open>.\<close>: every row of the small catalogue passes the name filter of
  the code, though no name contains a dot; by the predicate of the specification no row
  passes.
\<close>

theorem name_search_dot_matches_all:
  "apply_filters scenario_table (default_filters\<lparr>name_search := ''.''\<rparr>)
     = Returns [(0, racket_A), (1, racket_B), (2, racket_C)]
   \<and> filter (spec_name_predicate ''.'') scenario_table = []"
  by (simp add: ev spec_name_predicate_def contains_ci_def sublist_code)

text \<open>
  C7 at the search text \<open>(\<close>: the query raises, whatever the sorting.
\<close>

theorem name_search_paren_raises:
  "filter_and_sort_data kind scenario_table (default_filters\<lparr>name_search := ''(''\<rparr>) sb ord
     = Raises ReError"
  by (simp add: ev)

text \<open>
  On a search text without special characters the name filter of the code is the name
  predicate of the specification.
\<close>

lemma match_here_literal:
  "match_here (map Lit p) s = prefix (map lower_char p) (map lower_char s)"
proof (induction p arbitrary: s)
  case Nil
  then show ?case by simp
next
  case (Cons a p)
  then show ?case by (cases s) simp_all
qed

lemma re_search_literal:
  "re_search (map Lit p) s = sublist (map lower_char p) (map lower_char s)"
proof (cases p)
  case Nil
  then show ?thesis by (cases s) simp_all
next
  case (Cons a p')
  show ?thesis unfolding Cons
  proof (induction s)
    case Nil
    then show ?case by simp
  next
    case (Cons c cs)
    have "match_here (map Lit (a # p')) (c # cs)
            = prefix (map lower_char (a # p')) (map lower_char (c # cs))"
      by (rule match_here_literal)
    with Cons show ?case by (simp add: sublist_code del: match_here.simps)
  qed
qed

lemma re_compile_plain: "plain_text pat \<Longrightarrow> re_compile pat = Pattern (map Lit pat)"
  by (auto simp: plain_text_def re_compile_def list_all_iff re_special_def)

lemma plain_search_is_substring_search:
  assumes "plain_text (name_search f)"
  shows "name_filter True f df = Returns (filter (spec_name_predicate (name_search f)) df)"
proof (cases "name_search f = []")
  case True
  then show ?thesis by (simp add: name_filter_def spec_name_predicate_def)
next
  case False
  have "contains_na_false (map Lit (name_search f)) x = spec_name_predicate (name_search f) x" for x
    using False
    by (simp add: contains_na_false_def spec_name_predicate_def contains_ci_def re_search_literal
        split: option.splits)
  then have "contains_na_false (map Lit (name_search f)) = spec_name_predicate (name_search f)"
    by (simp add: fun_eq_iff)
  with False assms show ?thesis by (simp add: name_filter_def re_compile_plain)
qed

subsection \<open>The table is not modified\<close>


lemma derive_first:
  assumes "heap_ok h" and "frames h a = Some v"
  shows "tracks h (g v) (derive g (a, h))"
  using assms by (auto simp: tracks_def derive_def new_frame_def heap_ok_def)

lemma derive_tracks:
  assumes "tracks h v s"
  shows "tracks h (g v) (derive g s)"
  using assms by (auto simp: tracks_def derive_def new_frame_def heap_ok_def)

lemma range_step_tracks:
  assumes "tracks h v s"
  shows "tracks h (range_filter col rng v) (range_step col rng s)"
proof (cases "fst rng \<noteq> snd rng")
  case True
  with derive_tracks [OF assms] show ?thesis by (simp add: range_step_def)
next
  case False
  with assms show ?thesis by (simp add: range_step_def range_filter_def)
qed

lemma price_step_tracks:
  assumes "tracks h v s"
  shows "tracks h (price_filter f v) (if price_rebinds f then derive (price_filter f) s else s)"
proof (cases "price_rebinds f")
  case True
  with derive_tracks [OF assms] show ?thesis by simp
next
  case False
  then have "price_filter f v = v"
    by (auto simp: price_rebinds_def price_filter_def split: option.splits)
  with False assms show ?thesis by simp
qed

lemma attr_steps_tracks:
  assumes "tracks h v s"
  shows "tracks h (attr_filters f v) (fold (\<lambda>(col, rng) s. range_step col rng s) (attr_ranges f) s)"
  using assms by (simp add: attr_filters_def attr_ranges_def range_step_tracks)

lemma tracks_frame:
  assumes "heap_ok h" and "tracks h v s"
  shows "\<forall>a. frames h a \<noteq> None \<longrightarrow> frames (snd s) a = frames h a"
    and "frames h (fst s) = None" and "frames (snd s) (fst s) = Some v"
  using assms by (auto simp: tracks_def heap_ok_def)

text \<open>
  C9. A query leaves the table as it was: after the call the table's frame holds the rows
  it held before, in the same order, and so does every other frame that existed; the frame
  returned did not exist before the call, and it holds what the query computes. A call that
  raises leaves the table unchanged as well.
\<close>

theorem query_leaves_table_unchanged:
  assumes "heap_ok h" and "frames h df = Some table"
    and "filter_and_sort_data_refs kind df f sb ord h = (r, h')"
  shows "frames h' df = Some table
         \<and> (\<forall>a. frames h a \<noteq> None \<longrightarrow> frames h' a = frames h a)
         \<and> (case r of
              Returns p \<Rightarrow>
                frames h p = None
                \<and> (\<exists>res. frames h' p = Some res
                        \<and> filter_and_sort_data kind table f sb ord = Returns res)
            | Raises e \<Rightarrow> filter_and_sort_data kind table f sb ord = Raises e
            | OutsideFragment \<Rightarrow> filter_and_sort_data kind table f sb ord = OutsideFragment)"
proof -
  let ?v3 = "attr_filters f (price_filter f (range_filter overall (overall_range f) table))"
  let ?s3 = "fold (\<lambda>(col, rng) s. range_step col rng s) (attr_ranges f)
      (if price_rebinds f
       then derive (price_filter f) (range_step overall (overall_range f) (derive (\<lambda>v. v) (df, h)))
       else range_step overall (overall_range f) (derive (\<lambda>v. v) (df, h)))"
  have t3: "tracks h ?v3 ?s3"
    by (intro attr_steps_tracks price_step_tracks range_step_tracks derive_first assms(1,2))
  note k3 = tracks_frame [OF assms(1) t3]
  have run: "filter_and_sort_data_refs kind df f sb ord h =
     (if name_search f = [] then
        (Returns (fst (derive (apply_sorting kind sb ord) ?s3)),
         snd (derive (apply_sorting kind sb ord) ?s3))
      else if \<not> has_str_accessor table then (Raises AttributeError, snd ?s3)
      else case re_compile (name_search f) of
             Pattern atoms \<Rightarrow>
               (Returns (fst (derive (apply_sorting kind sb ord)
                                (derive (filter (contains_na_false atoms)) ?s3))),
                snd (derive (apply_sorting kind sb ord)
                       (derive (filter (contains_na_false atoms)) ?s3)))
           | BadPattern \<Rightarrow> (Raises ReError, snd ?s3)
           | Unsupported \<Rightarrow> (OutsideFragment, snd ?s3))"
    by (simp add: filter_and_sort_data_refs_def Let_def assms(2) split: re_compiled.split)
  have pure: "filter_and_sort_data kind table f sb ord =
     (case name_filter (has_str_accessor table) f ?v3 of
        Returns fdf \<Rightarrow> Returns (apply_sorting kind sb ord fdf)
      | Raises e \<Rightarrow> Raises e
      | OutsideFragment \<Rightarrow> OutsideFragment)"
    by (simp add: filter_and_sort_data_def apply_filters_def)
  from assms(2) have dfh: "frames h df \<noteq> None" by simp
  show ?thesis
  proof (cases "name_search f = []")
    case True
    let ?s = "derive (apply_sorting kind sb ord) ?s3"
    have t: "tracks h (apply_sorting kind sb ord ?v3) ?s" by (rule derive_tracks [OF t3])
    note k = tracks_frame [OF assms(1) t]
    from assms(3) run True have r: "r = Returns (fst ?s)" "h' = snd ?s" by simp_all
    from k dfh assms(2) show ?thesis
      by (simp add: r pure name_filter_def True)
  next
    case ns: False
    show ?thesis
    proof (cases "has_str_accessor table")
      case False
      from assms(3) run ns False have r: "r = Raises AttributeError" "h' = snd ?s3" by simp_all
      from k3 dfh assms(2) show ?thesis
        by (simp add: r pure name_filter_def ns False)
    next
      case ok: True
      show ?thesis
      proof (cases "re_compile (name_search f)")
        case (Pattern atoms)
        let ?s = "derive (apply_sorting kind sb ord) (derive (filter (contains_na_false atoms)) ?s3)"
        have t: "tracks h (apply_sorting kind sb ord (filter (contains_na_false atoms) ?v3)) ?s"
          by (intro derive_tracks t3)
        note k = tracks_frame [OF assms(1) t]
        from assms(3) run ns ok Pattern have r: "r = Returns (fst ?s)" "h' = snd ?s" by simp_all
        from k dfh assms(2) show ?thesis
          by (simp add: r pure name_filter_def ns ok Pattern)
      next
        case BadPattern
        from assms(3) run ns ok BadPattern have r: "r = Raises ReError" "h' = snd ?s3" by simp_all
        from k3 dfh assms(2) show ?thesis
          by (simp add: r pure name_filter_def ns ok BadPattern)
      next
        case Unsupported
        from assms(3) run ns ok Unsupported have r: "r = OutsideFragment" "h' = snd ?s3" by simp_all
        from k3 dfh assms(2) show ?thesis
          by (simp add: r pure name_filter_def ns ok Unsupported)
      qed
    qed
  qed
qed

lemma scenario_heap_ok: "heap_ok scenario_heap"
  by (simp add: heap_ok_def scenario_heap_def)

lemma scenario_heap_table: "frames scenario_heap 0 = Some scenario_table"
  by (simp add: scenario_heap_def)

theorem query_leaves_table_unchanged_witness:
  "heap_ok scenario_heap
   \<and> frames scenario_heap 0 = Some scenario_table
   \<and> fst (filter_and_sort_data_refs insertion_sort 0 scenario_filters Price Desc scenario_heap)
       = Returns 7
   \<and> frames (snd (filter_and_sort_data_refs insertion_sort 0 scenario_filters Price Desc
                    scenario_heap)) 0
       = Some scenario_table
   \<and> frames (snd (filter_and_sort_data_refs insertion_sort 0 scenario_filters Price Desc
                    scenario_heap)) 7
       = Some [(0, racket_A), (2, racket_C), (1, racket_B)]"
proof -
  let ?run = "filter_and_sort_data_refs insertion_sort 0 scenario_filters Price Desc scenario_heap"
  have r: "fst ?run = Returns 7"
    by (simp add: filter_and_sort_data_refs_def ev scenario_heap_def derive_def new_frame_def
        range_step_def price_rebinds_def Let_def)
  have q: "filter_and_sort_data insertion_sort scenario_table scenario_filters Price Desc
             = Returns [(0, racket_A), (2, racket_C), (1, racket_B)]"
    by (rule scenario_price_desc [OF insertion_sort_sorts])
  have e: "?run = (fst ?run, snd ?run)" by simp
  from query_leaves_table_unchanged [OF scenario_heap_ok scenario_heap_table e]
  have "frames (snd ?run) 0 = Some scenario_table
        \<and> (\<exists>res. frames (snd ?run) 7 = Some res
               \<and> filter_and_sort_data insertion_sort scenario_table scenario_filters Price Desc
                   = Returns res)"
    by (simp add: r)
  with q r scenario_heap_ok scenario_heap_table show ?thesis by auto
qed

end
